theory Spec2Isabelle
  imports Main "HOL-Library.Word" "HOL-Library.Char_ord" "HOL-Library.List_Lexorder"
begin

section \<open>Integer arithmetic of the source language\<close>

text \<open>
  C++ integer division truncates towards zero and the remainder takes the sign of the
  dividend; \<open>div\<close> and \<open>mod\<close> of HOL round towards minus infinity. Both
  \<open>duration_cast\<close> and \<open>operator%\<close> on durations are defined through the C++ operators.
  The divisors of the source are the positive constants \<open>10^9\<close>, \<open>10^6\<close> and 1000, and
  the two functions are written for a positive divisor.
\<close>

definition cxx_div :: "int \<Rightarrow> int \<Rightarrow> int" where
  "cxx_div a b = (if 0 \<le> a then a div b else - ((- a) div b))"

definition cxx_rem :: "int \<Rightarrow> int \<Rightarrow> int" where
  "cxx_rem a b = a - b * cxx_div a b"

section \<open>The clock types\<close>

text \<open>
  \<open>std::chrono::system_clock::time_point\<close> as libstdc++ has it on the POSIX branch of the
  source: a signed 64-bit count of nanoseconds since the epoch. \<open>time_t\<close> is a signed
  64-bit count of seconds; the quotient of a 64-bit nanosecond count by \<open>10^9\<close> always
  fits, so it is an \<open>int\<close> here.
\<close>

type_synonym time_point = "64 word"

definition time_since_epoch :: "time_point \<Rightarrow> int" where
  "time_since_epoch tp = sint tp"

definition duration_cast_seconds :: "int \<Rightarrow> int" where
  "duration_cast_seconds ns = cxx_div ns 1000000000"

definition duration_cast_milliseconds :: "int \<Rightarrow> int" where
  "duration_cast_milliseconds ns = cxx_div ns 1000000"

definition to_time_t :: "time_point \<Rightarrow> int" where
  "to_time_t tp = duration_cast_seconds (time_since_epoch tp)"

section \<open>The calendar breakdown and the platform\<close>

text \<open>
  \<open>struct tm\<close>, with the six members the formats of the source read (\<open>tm_wday\<close>,
  \<open>tm_yday\<close> and \<open>tm_isdst\<close> are never read by \<open>%F\<close>, \<open>%H\<close>, \<open>%M\<close>, \<open>%S\<close>).
\<close>

record tm =
  tm_sec :: int
  tm_min :: int
  tm_hour :: int
  tm_mday :: int
  tm_mon :: int
  tm_year :: int

text \<open>\<open>std::tm tm{}\<close>: every member zero.\<close>

definition tm_zero :: tm where
  "tm_zero = \<lparr>tm_sec = 0, tm_min = 0, tm_hour = 0, tm_mday = 0, tm_mon = 0, tm_year = 0\<rparr>"

text \<open>
  What the source takes from its host: \<open>gmtime_r\<close> and \<open>localtime_r\<close>, each given the
  \<open>time_t\<close> and the caller's buffer and returning whether it succeeded together with the
  buffer as it leaves it (the C functions return a null pointer on failure), and the reading
  of \<open>system_clock::now()\<close>. The time zone setting of the host acts through the two
  functions: \<open>localtime_r\<close> follows the rule of the zone, and under a zone that counts leap
  seconds \<open>gmtime_r\<close> is another function too.
\<close>

record platform =
  gmtime_r :: "int \<Rightarrow> tm \<Rightarrow> bool \<times> tm"
  localtime_r :: "int \<Rightarrow> tm \<Rightarrow> bool \<times> tm"
  system_clock_now :: time_point

text \<open>The return value of the platform call is dropped; the buffer is returned.\<close>

definition to_local_tm :: "platform \<Rightarrow> int \<Rightarrow> tm" where
  "to_local_tm p t = snd (localtime_r p t tm_zero)"

definition to_utc_tm :: "platform \<Rightarrow> int \<Rightarrow> tm" where
  "to_utc_tm p t = snd (gmtime_r p t tm_zero)"

section \<open>Formatting\<close>

definition digit_char :: "nat \<Rightarrow> char" where
  "digit_char d = ''0123456789'' ! d"

fun dec_digits :: "nat \<Rightarrow> string" where
  "dec_digits n = (if n < 10 then [digit_char n] else dec_digits (n div 10) @ [digit_char (n mod 10)])"

declare dec_digits.simps [simp del]

text \<open>
  An integer as a decimal number, sign first: what \<open>operator<<\<close> writes for a signed
  integer with the default flags, before any padding.
\<close>

definition num_put :: "int \<Rightarrow> string" where
  "num_put i = (if i < 0 then CHR ''-'' # dec_digits (nat (- i)) else dec_digits (nat i))"

text \<open>
  \<open>std::setw(w) << std::setfill(c)\<close> before one insertion: with the default adjustment
  the fill characters go in front of the whole text, sign included.
\<close>

definition setw_setfill :: "nat \<Rightarrow> char \<Rightarrow> string \<Rightarrow> string" where
  "setw_setfill w c s = replicate (w - length s) c @ s"

text \<open>
  A numeric conversion of \<open>strftime\<close>: the digits padded with zeros to the width of the
  conversion; the sign of a negative value goes in front and counts in the width.
\<close>

definition strftime_num :: "nat \<Rightarrow> int \<Rightarrow> string" where
  "strftime_num w i =
     (if i < 0 then CHR ''-'' # setw_setfill (w - 1) CHR ''0'' (dec_digits (nat (- i)))
      else setw_setfill w CHR ''0'' (dec_digits (nat i)))"

text \<open>
  The conversion specifiers the source uses, as ISO C defines them: \<open>%Y\<close> the year as a
  decimal number, \<open>%m\<close>, \<open>%d\<close>, \<open>%H\<close>, \<open>%M\<close>, \<open>%S\<close> two digits each, \<open>%F\<close> the same
  as \<open>%Y-%m-%d\<close>. Any other specifier produces nothing here.
\<close>

definition strftime_conv :: "tm \<Rightarrow> char \<Rightarrow> string" where
  "strftime_conv t c =
     (if c = CHR ''Y'' then num_put (tm_year t + 1900)
      else if c = CHR ''m'' then strftime_num 2 (tm_mon t + 1)
      else if c = CHR ''d'' then strftime_num 2 (tm_mday t)
      else if c = CHR ''H'' then strftime_num 2 (tm_hour t)
      else if c = CHR ''M'' then strftime_num 2 (tm_min t)
      else if c = CHR ''S'' then strftime_num 2 (tm_sec t)
      else if c = CHR ''F'' then
        num_put (tm_year t + 1900) @ ''-'' @ strftime_num 2 (tm_mon t + 1) @ ''-''
          @ strftime_num 2 (tm_mday t)
      else [])"

fun put_time :: "tm \<Rightarrow> string \<Rightarrow> string" where
  "put_time t [] = []"
| "put_time t [c] = [c]"
| "put_time t (c # d # cs) =
     (if c = CHR ''%'' then strftime_conv t d @ put_time t cs else c # put_time t (d # cs))"

declare put_time.simps [simp del]

section \<open>The formatter\<close>

definition get_input_time_point_or_current_system_time ::
    "platform \<Rightarrow> time_point option \<Rightarrow> time_point" where
  "get_input_time_point_or_current_system_time p time_point =
     (case time_point of Some tp \<Rightarrow> tp | None \<Rightarrow> system_clock_now p)"

definition get_formatted_milliseconds :: "int \<Rightarrow> string" where
  "get_formatted_milliseconds milliseconds = setw_setfill 3 CHR ''0'' (num_put milliseconds)"

definition get_current_iso_date :: "platform \<Rightarrow> time_point option \<Rightarrow> string" where
  "get_current_iso_date p time_point =
     (let now = get_input_time_point_or_current_system_time p time_point;
          seconds = to_time_t now;
          t = to_local_tm p seconds
      in put_time t ''%F'')"

definition get_current_iso_date_time :: "platform \<Rightarrow> time_point option \<Rightarrow> string" where
  "get_current_iso_date_time p time_point =
     (let now = get_input_time_point_or_current_system_time p time_point;
          seconds = to_time_t now;
          t = to_local_tm p seconds
      in put_time t ''%FT%H:%M:%S'')"

definition get_current_iso_date_timestamp :: "platform \<Rightarrow> time_point option \<Rightarrow> string" where
  "get_current_iso_date_timestamp p time_point =
     (let now = get_input_time_point_or_current_system_time p time_point;
          seconds = to_time_t now;
          milliseconds = cxx_rem (duration_cast_milliseconds (time_since_epoch now)) 1000;
          t = to_local_tm p seconds
      in put_time t ''%FT%H:%M:%S'' @ ''.'' @ get_formatted_milliseconds milliseconds)"

definition get_current_utc_iso_date :: "platform \<Rightarrow> time_point option \<Rightarrow> string" where
  "get_current_utc_iso_date p time_point =
     (let now = get_input_time_point_or_current_system_time p time_point;
          seconds = to_time_t now;
          t = to_utc_tm p seconds
      in put_time t ''%F'')"

definition get_current_utc_iso_date_time :: "platform \<Rightarrow> time_point option \<Rightarrow> string" where
  "get_current_utc_iso_date_time p time_point =
     (let now = get_input_time_point_or_current_system_time p time_point;
          seconds = to_time_t now;
          t = to_utc_tm p seconds
      in put_time t ''%FT%H:%M:%S'' @ ''Z'')"

definition get_current_utc_iso_date_timestamp :: "platform \<Rightarrow> time_point option \<Rightarrow> string" where
  "get_current_utc_iso_date_timestamp p time_point =
     (let now = get_input_time_point_or_current_system_time p time_point;
          seconds = to_time_t now;
          milliseconds = cxx_rem (duration_cast_milliseconds (time_since_epoch now)) 1000;
          t = to_utc_tm p seconds
      in put_time t ''%FT%H:%M:%S'' @ ''.'' @ get_formatted_milliseconds milliseconds @ ''Z'')"

text \<open>The overloads without an argument pass \<open>std::nullopt\<close>.\<close>

definition get_current_iso_date_noarg :: "platform \<Rightarrow> string" where
  "get_current_iso_date_noarg p = get_current_iso_date p None"

definition get_current_iso_date_time_noarg :: "platform \<Rightarrow> string" where
  "get_current_iso_date_time_noarg p = get_current_iso_date_time p None"

definition get_current_iso_date_timestamp_noarg :: "platform \<Rightarrow> string" where
  "get_current_iso_date_timestamp_noarg p = get_current_iso_date_timestamp p None"

definition get_current_utc_iso_date_noarg :: "platform \<Rightarrow> string" where
  "get_current_utc_iso_date_noarg p = get_current_utc_iso_date p None"

definition get_current_utc_iso_date_time_noarg :: "platform \<Rightarrow> string" where
  "get_current_utc_iso_date_time_noarg p = get_current_utc_iso_date_time p None"

definition get_current_utc_iso_date_timestamp_noarg :: "platform \<Rightarrow> string" where
  "get_current_utc_iso_date_timestamp_noarg p = get_current_utc_iso_date_timestamp p None"

section \<open>A POSIX host\<close>

text \<open>
  POSIX fixes what \<open>gmtime_r\<close> computes: seconds since the epoch count days of 86400
  seconds in the proleptic Gregorian calendar. The day number, counted from 1 March of
  year 0, is split into eras of 400 years, centuries, groups of four years and years, the
  way C libraries do it; the last century of an era and the last year of a group are
  one day longer. A local zone is its rule: the offset from UTC, in seconds, in force at
  each instant.
\<close>

definition era_of_days :: "int \<Rightarrow> int" where
  "era_of_days z = (z + 719468) div 146097"

definition day_of_era :: "int \<Rightarrow> int" where
  "day_of_era z = (z + 719468) mod 146097"

definition century_of_era :: "int \<Rightarrow> int" where
  "century_of_era z = min 3 (day_of_era z div 36524)"

definition day_of_century :: "int \<Rightarrow> int" where
  "day_of_century z = day_of_era z - 36524 * century_of_era z"

definition quad_of_century :: "int \<Rightarrow> int" where
  "quad_of_century z = day_of_century z div 1461"

definition day_of_quad :: "int \<Rightarrow> int" where
  "day_of_quad z = day_of_century z mod 1461"

definition year_of_quad :: "int \<Rightarrow> int" where
  "year_of_quad z = min 3 (day_of_quad z div 365)"

definition day_of_year :: "int \<Rightarrow> int" where
  "day_of_year z = day_of_quad z - 365 * year_of_quad z"

definition month_index :: "int \<Rightarrow> int" where
  "month_index z = (5 * day_of_year z + 2) div 153"

definition civil_day :: "int \<Rightarrow> int" where
  "civil_day z = day_of_year z - (153 * month_index z + 2) div 5 + 1"

definition civil_month :: "int \<Rightarrow> int" where
  "civil_month z = (if month_index z < 10 then month_index z + 3 else month_index z - 9)"

definition march_year :: "int \<Rightarrow> int" where
  "march_year z =
     400 * era_of_days z + 100 * century_of_era z + 4 * quad_of_century z + year_of_quad z"

definition civil_year :: "int \<Rightarrow> int" where
  "civil_year z = march_year z + (if civil_month z \<le> 2 then 1 else 0)"

definition posix_breakdown :: "int \<Rightarrow> tm" where
  "posix_breakdown t =
     \<lparr>tm_sec = (t mod 86400) mod 60,
      tm_min = ((t mod 86400) mod 3600) div 60,
      tm_hour = (t mod 86400) div 3600,
      tm_mday = civil_day (t div 86400),
      tm_mon = civil_month (t div 86400) - 1,
      tm_year = civil_year (t div 86400) - 1900\<rparr>"

definition posix_platform :: "(int \<Rightarrow> int) \<Rightarrow> time_point \<Rightarrow> platform" where
  "posix_platform utc_offset clock =
     \<lparr>gmtime_r = (\<lambda>t buf. (True, posix_breakdown t)),
      localtime_r = (\<lambda>t buf. (True, posix_breakdown (t + utc_offset t))),
      system_clock_now = clock\<rparr>"

text \<open>A host whose local zone is UTC.\<close>

definition utc_zone :: "int \<Rightarrow> int" where
  "utc_zone t = 0"

text \<open>
  A zone with daylight saving time around the end of summer time on 27 October 2024, at
  01:00:00 UTC (epoch second 1729990800): two hours east of UTC before, one hour after.
\<close>

definition summer_time_ends :: "int \<Rightarrow> int" where
  "summer_time_ends t = (if t < 1729990800 then 7200 else 3600)"

text \<open>
  A host whose time zone setting counts leap seconds (the \<open>right/\<close> zones of the time
  zone database, here \<open>right/UTC\<close>). Its \<open>time_t\<close> counts every second since the epoch,
  the 27 leap seconds inserted from 1972 to 2016 included; \<open>leap_second_times\<close> are the
  \<open>time_t\<close> values of those seconds, each shown as 23:59:60. \<open>gmtime_r\<close> takes off the
  leap seconds that have passed; \<open>localtime_r\<close> is the same function, the zone being UTC.
\<close>

definition leap_second_times :: "int list" where
  "leap_second_times =
     [78796800, 94694401, 126230402, 157766403, 189302404, 220924805, 252460806,
      283996807, 315532808, 362793609, 394329610, 425865611, 489024012, 567993613,
      631152014, 662688015, 709948816, 741484817, 773020818, 820454419, 867715220,
      915148821, 1136073622, 1230768023, 1341100824, 1435708825, 1483228826]"

definition leap_seconds_before :: "int \<Rightarrow> int" where
  "leap_seconds_before t = int (length (filter (\<lambda>l. l < t) leap_second_times))"

definition right_utc_breakdown :: "int \<Rightarrow> tm" where
  "right_utc_breakdown t =
     (if t \<in> set leap_second_times
      then (posix_breakdown (t - leap_seconds_before t - 1))\<lparr>tm_sec := 60\<rparr>
      else posix_breakdown (t - leap_seconds_before t))"

definition right_utc_platform :: "time_point \<Rightarrow> platform" where
  "right_utc_platform clock =
     \<lparr>gmtime_r = (\<lambda>t buf. (True, right_utc_breakdown t)),
      localtime_r = (\<lambda>t buf. (True, right_utc_breakdown t)),
      system_clock_now = clock\<rparr>"

section \<open>Unfolding and evaluation\<close>

lemma dec_digits_lt10: "n < 10 \<Longrightarrow> dec_digits n = [digit_char n]"
  by (subst dec_digits.simps) simp

lemma dec_digits_ge10:
  "10 \<le> n \<Longrightarrow> dec_digits n = dec_digits (n div 10) @ [digit_char (n mod 10)]"
  by (subst dec_digits.simps) simp

lemma replicate_numeral_Cons: "replicate (numeral k) c = c # replicate (pred_numeral k) c"
  by (simp add: numeral_eq_Suc)

lemma posix_gmtime_r: "gmtime_r (posix_platform off c) t buf = (True, posix_breakdown t)"
  by (simp add: posix_platform_def)

lemma posix_localtime_r:
  "localtime_r (posix_platform off c) t buf = (True, posix_breakdown (t + off t))"
  by (simp add: posix_platform_def)

lemma posix_system_clock_now: "system_clock_now (posix_platform off c) = c"
  by (simp add: posix_platform_def)

lemma local_date_eq:
  "get_current_iso_date p tp =
     put_time (to_local_tm p (to_time_t (get_input_time_point_or_current_system_time p tp))) ''%F''"
  by (simp only: get_current_iso_date_def Let_def)

lemma local_date_time_eq:
  "get_current_iso_date_time p tp =
     put_time (to_local_tm p (to_time_t (get_input_time_point_or_current_system_time p tp)))
       ''%FT%H:%M:%S''"
  by (simp only: get_current_iso_date_time_def Let_def)

lemma local_date_timestamp_eq:
  "get_current_iso_date_timestamp p tp =
     put_time (to_local_tm p (to_time_t (get_input_time_point_or_current_system_time p tp)))
       ''%FT%H:%M:%S'' @ ''.'' @
     get_formatted_milliseconds
       (cxx_rem (duration_cast_milliseconds
          (time_since_epoch (get_input_time_point_or_current_system_time p tp))) 1000)"
  by (simp only: get_current_iso_date_timestamp_def Let_def)

lemma utc_date_eq:
  "get_current_utc_iso_date p tp =
     put_time (to_utc_tm p (to_time_t (get_input_time_point_or_current_system_time p tp))) ''%F''"
  by (simp only: get_current_utc_iso_date_def Let_def)

lemma utc_date_time_eq:
  "get_current_utc_iso_date_time p tp =
     put_time (to_utc_tm p (to_time_t (get_input_time_point_or_current_system_time p tp)))
       ''%FT%H:%M:%S'' @ ''Z''"
  by (simp only: get_current_utc_iso_date_time_def Let_def)

lemma utc_date_timestamp_eq:
  "get_current_utc_iso_date_timestamp p tp =
     put_time (to_utc_tm p (to_time_t (get_input_time_point_or_current_system_time p tp)))
       ''%FT%H:%M:%S'' @ ''.'' @
     get_formatted_milliseconds
       (cxx_rem (duration_cast_milliseconds
          (time_since_epoch (get_input_time_point_or_current_system_time p tp))) 1000) @ ''Z''"
  by (simp only: get_current_utc_iso_date_timestamp_def Let_def)

lemmas entry_eqs = local_date_eq local_date_time_eq local_date_timestamp_eq
  utc_date_eq utc_date_time_eq utc_date_timestamp_eq

lemmas noarg_defs = get_current_iso_date_noarg_def get_current_iso_date_time_noarg_def
  get_current_iso_date_timestamp_noarg_def get_current_utc_iso_date_noarg_def
  get_current_utc_iso_date_time_noarg_def get_current_utc_iso_date_timestamp_noarg_def

lemmas chrono_defs = get_input_time_point_or_current_system_time_def to_time_t_def
  time_since_epoch_def duration_cast_seconds_def duration_cast_milliseconds_def
  cxx_div_def cxx_rem_def to_utc_tm_def to_local_tm_def

lemmas civil_defs = era_of_days_def day_of_era_def century_of_era_def day_of_century_def
  quad_of_century_def day_of_quad_def year_of_quad_def day_of_year_def month_index_def
  civil_day_def civil_month_def march_year_def civil_year_def posix_breakdown_def

lemmas fmt_defs = put_time.simps strftime_conv_def strftime_num_def setw_setfill_def dec_digits_lt10
  dec_digits_ge10 digit_char_def get_formatted_milliseconds_def num_put_def
  replicate_numeral_Cons

lemmas host_simps = posix_gmtime_r posix_localtime_r posix_system_clock_now
  utc_zone_def tm_zero_def

lemmas eval_simps = entry_eqs noarg_defs chrono_defs civil_defs fmt_defs host_simps

section \<open>The characters of the output\<close>

lemma digit_char_digit: "d < 10 \<Longrightarrow> digit_char d \<in> set ''0123456789''"
  unfolding digit_char_def by (rule nth_mem) simp

lemma dec_digits_chars: "set (dec_digits n) \<subseteq> set ''0123456789''"
proof (induction n rule: dec_digits.induct)
  case (1 n)
  show ?case
  proof (cases "n < 10")
    case True
    then show ?thesis using digit_char_digit [of n] by (simp add: dec_digits_lt10)
  next
    case False
    have "n mod 10 < 10" by simp
    then have "digit_char (n mod 10) \<in> set ''0123456789''" by (rule digit_char_digit)
    with False 1 show ?thesis by (simp add: dec_digits_ge10)
  qed
qed

lemma setw_setfill_chars: "set s \<subseteq> A \<Longrightarrow> c \<in> A \<Longrightarrow> set (setw_setfill w c s) \<subseteq> A"
  by (auto simp: setw_setfill_def)

lemma subset_Cons_right: "set s \<subseteq> set d \<Longrightarrow> set s \<subseteq> set (c # d)"
  by auto

lemma subset_Cons_both: "set s \<subseteq> set d \<Longrightarrow> set (c # s) \<subseteq> set (c # d)"
  by auto

lemma signed_chars:
  assumes "set s \<subseteq> set ''0123456789''"
  shows "set s \<subseteq> set ''-0123456789''" and "set (CHR ''-'' # s) \<subseteq> set ''-0123456789''"
  using assms by (rule subset_Cons_right, rule subset_Cons_both)

lemma strftime_num_chars: "set (strftime_num w i) \<subseteq> set ''-0123456789''"
proof (cases "i < 0")
  case True
  have "set (setw_setfill (w - 1) CHR ''0'' (dec_digits (nat (- i)))) \<subseteq> set ''0123456789''"
    by (rule setw_setfill_chars [OF dec_digits_chars]) simp
  then have "set (CHR ''-'' # setw_setfill (w - 1) CHR ''0'' (dec_digits (nat (- i))))
      \<subseteq> set ''-0123456789''"
    by (rule signed_chars)
  with True show ?thesis by (simp only: strftime_num_def if_True)
next
  case False
  have "set (setw_setfill w CHR ''0'' (dec_digits (nat i))) \<subseteq> set ''0123456789''"
    by (rule setw_setfill_chars [OF dec_digits_chars]) simp
  then have "set (setw_setfill w CHR ''0'' (dec_digits (nat i))) \<subseteq> set ''-0123456789''"
    by (rule signed_chars)
  with False show ?thesis by (simp only: strftime_num_def if_False)
qed

lemma num_put_chars: "set (num_put i) \<subseteq> set ''-0123456789''"
proof (cases "i < 0")
  case True
  have "set (CHR ''-'' # dec_digits (nat (- i))) \<subseteq> set ''-0123456789''"
    by (rule signed_chars [OF dec_digits_chars])
  with True show ?thesis by (simp only: num_put_def if_True)
next
  case False
  have "set (dec_digits (nat i)) \<subseteq> set ''-0123456789''"
    by (rule signed_chars [OF dec_digits_chars])
  with False show ?thesis by (simp only: num_put_def if_False)
qed

lemma get_formatted_milliseconds_chars:
  "set (get_formatted_milliseconds ms) \<subseteq> set ''-0123456789''"
  unfolding get_formatted_milliseconds_def
  by (rule setw_setfill_chars [OF num_put_chars]) simp

lemma put_time_date:
  "put_time t ''%F'' =
     num_put (tm_year t + 1900) @ ''-'' @ strftime_num 2 (tm_mon t + 1) @ ''-'' @
     strftime_num 2 (tm_mday t)"
  by (simp add: put_time.simps strftime_conv_def)

lemma put_time_date_time:
  "put_time t ''%FT%H:%M:%S'' =
     put_time t ''%F'' @ ''T'' @ strftime_num 2 (tm_hour t) @ '':'' @
     strftime_num 2 (tm_min t) @ '':'' @ strftime_num 2 (tm_sec t)"
  by (simp add: put_time.simps strftime_conv_def)

lemma no_Z_in_number:
  assumes "set s \<subseteq> set ''-0123456789''"
  shows "CHR ''Z'' \<notin> set s"
proof
  assume "CHR ''Z'' \<in> set s"
  then have "CHR ''Z'' \<in> set ''-0123456789''" using assms by (rule subsetD [rotated])
  then show False by simp
qed

lemma put_time_date_no_Z: "CHR ''Z'' \<notin> set (put_time t ''%F'')"
  using no_Z_in_number [OF num_put_chars, of "tm_year t + 1900"]
    no_Z_in_number [OF strftime_num_chars, of 2 "tm_mon t + 1"]
    no_Z_in_number [OF strftime_num_chars, of 2 "tm_mday t"]
  unfolding put_time_date by simp

lemma put_time_date_time_no_Z: "CHR ''Z'' \<notin> set (put_time t ''%FT%H:%M:%S'')"
  using put_time_date_no_Z [of t]
    no_Z_in_number [OF strftime_num_chars, of 2 "tm_hour t"]
    no_Z_in_number [OF strftime_num_chars, of 2 "tm_min t"]
    no_Z_in_number [OF strftime_num_chars, of 2 "tm_sec t"]
  unfolding put_time_date_time by simp

lemma get_formatted_milliseconds_no_Z: "CHR ''Z'' \<notin> set (get_formatted_milliseconds ms)"
  by (rule no_Z_in_number [OF get_formatted_milliseconds_chars])

section \<open>Ranges of the calendar computation\<close>

lemma era_split: "z + 719468 = 146097 * era_of_days z + day_of_era z"
  by (simp add: era_of_days_def day_of_era_def)

lemma day_of_era_range: "0 \<le> day_of_era z" "day_of_era z < 146097"
  by (simp_all add: day_of_era_def)

lemma century_of_era_range: "0 \<le> century_of_era z" "century_of_era z \<le> 3"
  using day_of_era_range [of z] by (simp_all add: century_of_era_def pos_imp_zdiv_nonneg_iff)

lemma day_of_century_range: "0 \<le> day_of_century z" "day_of_century z \<le> 36524"
  using day_of_era_range [of z] unfolding day_of_century_def century_of_era_def by arith+

lemma quad_split: "day_of_century z = 1461 * quad_of_century z + day_of_quad z"
  by (simp add: quad_of_century_def day_of_quad_def)

lemma day_of_quad_range: "0 \<le> day_of_quad z" "day_of_quad z < 1461"
  by (simp_all add: day_of_quad_def)

lemma quad_of_century_range: "0 \<le> quad_of_century z" "quad_of_century z \<le> 24"
  using day_of_century_range [of z] unfolding quad_of_century_def by arith+

lemma year_of_quad_range: "0 \<le> year_of_quad z" "year_of_quad z \<le> 3"
  using day_of_quad_range [of z] by (simp_all add: year_of_quad_def pos_imp_zdiv_nonneg_iff)

lemma day_of_year_range: "0 \<le> day_of_year z" "day_of_year z \<le> 365"
  using day_of_quad_range [of z] unfolding day_of_year_def year_of_quad_def by arith+

lemma month_index_range: "0 \<le> month_index z" "month_index z \<le> 11"
  using day_of_year_range [of z] unfolding month_index_def by arith+

lemma civil_day_range: "1 \<le> civil_day z" "civil_day z \<le> 31"
  using day_of_year_range [of z] unfolding civil_day_def month_index_def by arith+

lemma civil_month_range: "1 \<le> civil_month z" "civil_month z \<le> 12"
  using month_index_range [of z] by (simp_all add: civil_month_def)

lemma march_year_range:
  "400 * era_of_days z \<le> march_year z" "march_year z \<le> 400 * era_of_days z + 399"
  using century_of_era_range [of z] quad_of_century_range [of z] year_of_quad_range [of z]
  by (simp_all add: march_year_def)

lemma month_number: "12 * civil_year z + civil_month z = 12 * march_year z + month_index z + 3"
  using month_index_range [of z] by (simp add: civil_year_def civil_month_def)

section \<open>The calendar follows the day count\<close>

lemma march_year_step:
  assumes "z1 \<le> z2"
  shows "march_year z1 < march_year z2 \<or>
         (march_year z1 = march_year z2 \<and> day_of_year z2 - day_of_year z1 = z2 - z1)"
proof -
  have e: "era_of_days z1 \<le> era_of_days z2"
    using assms unfolding era_of_days_def by (intro zdiv_mono1) simp_all
  show ?thesis
  proof (cases "era_of_days z1 = era_of_days z2")
    case False
    with e have "era_of_days z1 + 1 \<le> era_of_days z2" by simp
    then show ?thesis using march_year_range [of z1] march_year_range [of z2] by simp
  next
    case era: True
    have doe: "day_of_era z2 - day_of_era z1 = z2 - z1"
      using era_split [of z1] era_split [of z2] era by simp
    have c: "century_of_era z1 \<le> century_of_era z2"
      using doe assms unfolding century_of_era_def
      by (intro min.mono zdiv_mono1) simp_all
    show ?thesis
    proof (cases "century_of_era z1 = century_of_era z2")
      case False
      with c have "century_of_era z1 + 1 \<le> century_of_era z2" by simp
      then show ?thesis
        using era quad_of_century_range [of z1] quad_of_century_range [of z2]
          year_of_quad_range [of z1] year_of_quad_range [of z2]
        by (simp add: march_year_def)
    next
      case cent: True
      have doc: "day_of_century z2 - day_of_century z1 = z2 - z1"
        using doe cent by (simp add: day_of_century_def)
      have q: "quad_of_century z1 \<le> quad_of_century z2"
        using doc assms unfolding quad_of_century_def by (intro zdiv_mono1) simp_all
      show ?thesis
      proof (cases "quad_of_century z1 = quad_of_century z2")
        case False
        with q have "quad_of_century z1 + 1 \<le> quad_of_century z2" by simp
        then show ?thesis
          using era cent year_of_quad_range [of z1] year_of_quad_range [of z2]
          by (simp add: march_year_def)
      next
        case quad: True
        have doq: "day_of_quad z2 - day_of_quad z1 = z2 - z1"
          using doc quad quad_split [of z1] quad_split [of z2] by simp
        have y: "year_of_quad z1 \<le> year_of_quad z2"
          using doq assms unfolding year_of_quad_def by (intro min.mono zdiv_mono1) simp_all
        show ?thesis
        proof (cases "year_of_quad z1 = year_of_quad z2")
          case False
          with y show ?thesis using era cent quad by (simp add: march_year_def)
        next
          case True
          with doq era cent quad show ?thesis by (simp add: march_year_def day_of_year_def)
        qed
      qed
    qed
  qed
qed

lemma month_number_step:
  assumes "z1 \<le> z2"
  shows "12 * civil_year z1 + civil_month z1 < 12 * civil_year z2 + civil_month z2 \<or>
         (12 * civil_year z1 + civil_month z1 = 12 * civil_year z2 + civil_month z2 \<and>
          civil_day z2 - civil_day z1 = z2 - z1)"
proof -
  from march_year_step [OF assms] show ?thesis
  proof
    assume "march_year z1 < march_year z2"
    then show ?thesis
      using month_index_range [of z1] month_index_range [of z2]
      by (simp add: month_number)
  next
    assume same: "march_year z1 = march_year z2 \<and> day_of_year z2 - day_of_year z1 = z2 - z1"
    then have "day_of_year z1 \<le> day_of_year z2" using assms by simp
    then have m: "month_index z1 \<le> month_index z2"
      unfolding month_index_def by (intro zdiv_mono1) simp_all
    show ?thesis
    proof (cases "month_index z1 = month_index z2")
      case False
      with m same show ?thesis by (simp add: month_number)
    next
      case True
      with same show ?thesis by (simp add: month_number civil_day_def)
    qed
  qed
qed

text \<open>Year, month and day in lexicographic order follow the day count.\<close>

lemma civil_date_step:
  assumes "z1 \<le> z2"
  shows "civil_year z1 < civil_year z2 \<or>
         civil_year z1 = civil_year z2 \<and>
           (civil_month z1 < civil_month z2 \<or>
            civil_month z1 = civil_month z2 \<and> civil_day z2 - civil_day z1 = z2 - z1)"
  using month_number_step [OF assms] civil_month_range [of z1] civil_month_range [of z2]
  by arith

lemma civil_year_4_digits:
  assumes "- 115741 \<le> z" "z \<le> 115740"
  shows "1000 \<le> civil_year z" "civil_year z \<le> 9999"
proof -
  have "4 \<le> era_of_days z" "era_of_days z \<le> 5"
    using assms unfolding era_of_days_def by arith+
  then show "1000 \<le> civil_year z" "civil_year z \<le> 9999"
    using march_year_range [of z] by (simp_all add: civil_year_def)
qed

section \<open>Fixed-width fields and the order of strings\<close>

lemma append_less_left:
  fixes xs ys :: string
  shows "xs < ys \<Longrightarrow> length ys \<le> length xs \<Longrightarrow> xs @ us < ys @ vs"
  unfolding list_less_def by (rule lexord_sufI)

lemma append_less_right:
  fixes us vs :: string
  shows "us < vs \<Longrightarrow> xs @ us < xs @ vs"
  unfolding list_less_def by (rule lexord_append_leftI)

lemma digit_char_code: "d < 10 \<Longrightarrow> of_char (digit_char d) = 48 + d"
proof -
  assume "d < 10"
  then have "d = 0 \<or> d = 1 \<or> d = 2 \<or> d = 3 \<or> d = 4 \<or> d = 5 \<or> d = 6 \<or> d = 7 \<or> d = 8 \<or> d = 9"
    by arith
  then show ?thesis
    by (elim disjE) (simp_all add: digit_char_def)
qed

lemma digit_char_less: "a < b \<Longrightarrow> b < 10 \<Longrightarrow> digit_char a < digit_char b"
  by (simp add: less_char_def digit_char_code)

lemma digit_char_0: "digit_char 0 = CHR ''0''"
  by (simp add: digit_char_def)

lemma div_mod_lex:
  fixes a b k :: nat
  assumes "a < b"
  shows "a div k < b div k \<or> a div k = b div k \<and> a mod k < b mod k"
proof (cases "a div k = b div k")
  case True
  have "k * (a div k) + a mod k < k * (b div k) + b mod k"
    using assms by (simp only: mult_div_mod_eq)
  then have "a mod k < b mod k"
    unfolding True by (rule add_less_imp_less_left)
  with True show ?thesis by simp
next
  case False
  moreover have "a div k \<le> b div k" using assms by (simp add: div_le_mono)
  ultimately show ?thesis by simp
qed

text \<open>Zero padding to a width takes the last digit off like the digits themselves.\<close>

lemma padded_snoc:
  assumes "0 < w"
  shows "setw_setfill (Suc w) CHR ''0'' (dec_digits n) =
         setw_setfill w CHR ''0'' (dec_digits (n div 10)) @ [digit_char (n mod 10)]"
proof (cases "n < 10")
  case True
  have "replicate w CHR ''0'' = replicate (w - 1) CHR ''0'' @ [CHR ''0'']"
    using assms by (cases w) (simp_all add: replicate_append_same)
  with True show ?thesis
    by (simp add: setw_setfill_def dec_digits_lt10 digit_char_0)
next
  case False
  then show ?thesis
    by (simp add: setw_setfill_def dec_digits_ge10 Suc_diff_le)
qed

lemma padded_length:
  "0 < w \<Longrightarrow> n < 10 ^ w \<Longrightarrow> length (setw_setfill w CHR ''0'' (dec_digits n)) = w"
proof (induction w arbitrary: n)
  case 0
  then show ?case by simp
next
  case (Suc w)
  show ?case
  proof (cases "w = 0")
    case True
    with Suc.prems show ?thesis by (simp add: setw_setfill_def dec_digits_lt10)
  next
    case False
    moreover from Suc.prems have "n div 10 < 10 ^ w" by (simp add: less_mult_imp_div_less mult.commute)
    ultimately show ?thesis using Suc.IH [of "n div 10"] by (simp add: padded_snoc)
  qed
qed

lemma padded_less:
  "0 < w \<Longrightarrow> a < b \<Longrightarrow> b < 10 ^ w \<Longrightarrow>
     setw_setfill w CHR ''0'' (dec_digits a) < setw_setfill w CHR ''0'' (dec_digits b)"
proof (induction w arbitrary: a b)
  case 0
  then show ?case by simp
next
  case (Suc w)
  show ?case
  proof (cases "w = 0")
    case True
    with Suc.prems show ?thesis
      by (simp add: setw_setfill_def dec_digits_lt10 digit_char_less)
  next
    case False
    then have w: "0 < w" by simp
    have b10: "b div 10 < 10 ^ w"
      using Suc.prems by (simp add: less_mult_imp_div_less mult.commute)
    from div_mod_lex [OF Suc.prems(2), of 10] show ?thesis
    proof
      assume lt: "a div 10 < b div 10"
      then have "a div 10 < 10 ^ w" using b10 by simp
      then have "length (setw_setfill w CHR ''0'' (dec_digits (b div 10)))
          \<le> length (setw_setfill w CHR ''0'' (dec_digits (a div 10)))"
        using b10 w by (simp add: padded_length)
      with Suc.IH [OF w lt b10] show ?thesis
        unfolding padded_snoc [OF w] by (rule append_less_left)
    next
      assume eq: "a div 10 = b div 10 \<and> a mod 10 < b mod 10"
      then have "[digit_char (a mod 10)] < [digit_char (b mod 10)]"
        by (simp add: digit_char_less)
      then show ?thesis
        unfolding padded_snoc [OF w] using eq by (simp add: append_less_right)
    qed
  qed
qed

lemma strftime_num_nonneg:
  "0 \<le> i \<Longrightarrow> strftime_num w i = setw_setfill w CHR ''0'' (dec_digits (nat i))"
  by (simp add: strftime_num_def)

lemma two_digits_length: "0 \<le> i \<Longrightarrow> i < 100 \<Longrightarrow> length (strftime_num 2 i) = 2"
  by (simp add: strftime_num_nonneg padded_length)

lemma two_digits_less:
  "0 \<le> i \<Longrightarrow> i < j \<Longrightarrow> j < 100 \<Longrightarrow> strftime_num 2 i < strftime_num 2 j"
  by (simp add: strftime_num_nonneg padded_less)

lemma year_padding:
  assumes "1000 \<le> i"
  shows "num_put i = setw_setfill 4 CHR ''0'' (dec_digits (nat i))"
proof -
  have "1000 \<le> nat i" using assms by simp
  then have "4 \<le> length (dec_digits (nat i))"
    by (simp add: dec_digits_ge10 [of "nat i"] dec_digits_ge10 [of "nat i div 10"]
        dec_digits_ge10 [of "nat i div 10 div 10"] dec_digits.simps [of "nat i div 10 div 10 div 10"])
  then show ?thesis using assms by (simp add: num_put_def setw_setfill_def)
qed

lemma four_digits_length: "1000 \<le> i \<Longrightarrow> i \<le> 9999 \<Longrightarrow> length (num_put i) = 4"
  by (simp add: year_padding padded_length)

lemma four_digits_less:
  "1000 \<le> i \<Longrightarrow> i < j \<Longrightarrow> j \<le> 9999 \<Longrightarrow> num_put i < num_put j"
  by (simp add: year_padding padded_less)

lemma millis_nonneg:
  "0 \<le> i \<Longrightarrow> get_formatted_milliseconds i = setw_setfill 3 CHR ''0'' (dec_digits (nat i))"
  by (simp add: get_formatted_milliseconds_def num_put_def)

lemma three_digits_length:
  "0 \<le> i \<Longrightarrow> i < 1000 \<Longrightarrow> length (get_formatted_milliseconds i) = 3"
  by (simp add: millis_nonneg padded_length)

lemma three_digits_less:
  "0 \<le> i \<Longrightarrow> i < j \<Longrightarrow> j < 1000 \<Longrightarrow>
     get_formatted_milliseconds i < get_formatted_milliseconds j"
  by (simp add: millis_nonneg padded_less)

section \<open>The order of the formatted breakdown\<close>

lemma put_time_time:
  "put_time t ''%H:%M:%S'' =
     strftime_num 2 (tm_hour t) @ '':'' @ strftime_num 2 (tm_min t) @ '':'' @
     strftime_num 2 (tm_sec t)"
  by (simp add: put_time.simps strftime_conv_def)

lemma put_time_date_time_split:
  "put_time t ''%FT%H:%M:%S'' = put_time t ''%F'' @ ''T'' @ put_time t ''%H:%M:%S''"
  by (simp add: put_time.simps strftime_conv_def)

lemma posix_date:
  "put_time (posix_breakdown s) ''%F'' =
     num_put (civil_year (s div 86400)) @ ''-'' @
     strftime_num 2 (civil_month (s div 86400)) @ ''-'' @
     strftime_num 2 (civil_day (s div 86400))"
  by (simp add: put_time_date posix_breakdown_def)

lemma posix_date_same_day:
  "s1 div 86400 = s2 div 86400 \<Longrightarrow>
     put_time (posix_breakdown s1) ''%F'' = put_time (posix_breakdown s2) ''%F''"
  by (simp only: posix_date)

lemma posix_date_length:
  assumes "- 10000000000 \<le> s" "s \<le> 10000000000"
  shows "length (put_time (posix_breakdown s) ''%F'') = 10"
proof -
  have z: "- 115741 \<le> s div 86400" "s div 86400 \<le> 115740"
    using assms by arith+
  show ?thesis
    using civil_year_4_digits [OF z] civil_month_range [of "s div 86400"]
      civil_day_range [of "s div 86400"]
    by (simp add: posix_date four_digits_length two_digits_length)
qed

lemma posix_date_less:
  assumes "- 10000000000 \<le> s1" "s2 \<le> 10000000000" "s1 div 86400 < s2 div 86400"
  shows "put_time (posix_breakdown s1) ''%F'' < put_time (posix_breakdown s2) ''%F''"
proof -
  let ?z1 = "s1 div 86400" and ?z2 = "s2 div 86400"
  have z1: "- 115741 \<le> ?z1" "?z1 \<le> 115740" and z2: "- 115741 \<le> ?z2" "?z2 \<le> 115740"
    using assms by arith+
  note y1 = civil_year_4_digits [OF z1] and y2 = civil_year_4_digits [OF z2]
  note m1 = civil_month_range [of ?z1] and m2 = civil_month_range [of ?z2]
  note d1 = civil_day_range [of ?z1] and d2 = civil_day_range [of ?z2]
  from assms(3) have "?z1 \<le> ?z2" by simp
  from civil_date_step [OF this] assms(3)
  consider (year) "civil_year ?z1 < civil_year ?z2"
    | (month) "civil_year ?z1 = civil_year ?z2" "civil_month ?z1 < civil_month ?z2"
    | (day) "civil_year ?z1 = civil_year ?z2" "civil_month ?z1 = civil_month ?z2"
        "civil_day ?z1 < civil_day ?z2"
    by fastforce
  then show ?thesis
  proof cases
    case year
    then have "num_put (civil_year ?z1) < num_put (civil_year ?z2)"
      using y1 y2 by (intro four_digits_less) simp_all
    then show ?thesis
      unfolding posix_date using y1 y2
      by (intro append_less_left) (simp_all add: four_digits_length)
  next
    case month
    then have "strftime_num 2 (civil_month ?z1) < strftime_num 2 (civil_month ?z2)"
      using m1 m2 by (intro two_digits_less) simp_all
    then have "strftime_num 2 (civil_month ?z1) @ ''-'' @ strftime_num 2 (civil_day ?z1)
        < strftime_num 2 (civil_month ?z2) @ ''-'' @ strftime_num 2 (civil_day ?z2)"
      using m1 m2 by (intro append_less_left) (simp_all add: two_digits_length)
    then show ?thesis
      unfolding posix_date month(1) by (intro append_less_right)
  next
    case day
    then have "strftime_num 2 (civil_day ?z1) < strftime_num 2 (civil_day ?z2)"
      using d1 d2 by (intro two_digits_less) simp_all
    then show ?thesis
      unfolding posix_date day(1) day(2) by (intro append_less_right)
  qed
qed

lemma int_div_mod_lex:
  fixes a b k :: int
  assumes "a < b" "0 < k"
  shows "a div k < b div k \<or> a div k = b div k \<and> a mod k < b mod k"
proof (cases "a div k = b div k")
  case True
  have "k * (a div k) + a mod k < k * (b div k) + b mod k"
    using assms by (simp only: mult_div_mod_eq)
  then have "a mod k < b mod k"
    unfolding True by (rule add_less_imp_less_left)
  with True show ?thesis by simp
next
  case False
  moreover have "a div k \<le> b div k" using assms by (intro zdiv_mono1) simp_all
  ultimately show ?thesis by simp
qed

lemma time_of_day_lex:
  fixes r1 r2 :: int
  assumes "r1 < r2"
  shows "r1 div 3600 < r2 div 3600 \<or>
         r1 div 3600 = r2 div 3600 \<and>
           (r1 mod 3600 div 60 < r2 mod 3600 div 60 \<or>
            r1 mod 3600 div 60 = r2 mod 3600 div 60 \<and> r1 mod 60 < r2 mod 60)"
proof -
  have m: "r mod 3600 mod 60 = r mod 60" for r :: int
    by (rule mod_mod_cancel) simp
  have "r1 div 3600 < r2 div 3600 \<or> r1 div 3600 = r2 div 3600 \<and> r1 mod 3600 < r2 mod 3600"
    by (rule int_div_mod_lex [OF assms]) simp
  then show ?thesis
  proof
    assume "r1 div 3600 < r2 div 3600"
    then show ?thesis by simp
  next
    assume h: "r1 div 3600 = r2 div 3600 \<and> r1 mod 3600 < r2 mod 3600"
    then have "r1 mod 3600 < r2 mod 3600" by simp
    then have "r1 mod 3600 div 60 < r2 mod 3600 div 60 \<or>
        r1 mod 3600 div 60 = r2 mod 3600 div 60 \<and> r1 mod 3600 mod 60 < r2 mod 3600 mod 60"
      by (rule int_div_mod_lex) simp
    with h show ?thesis
      unfolding m by blast
  qed
qed

lemma time_of_day_range:
  fixes r :: int
  assumes "0 \<le> r" "r < 86400"
  shows "0 \<le> r div 3600" "r div 3600 < 100" "0 \<le> r mod 3600 div 60"
    "r mod 3600 div 60 < 100" "0 \<le> r mod 60" "r mod 60 < 100"
  using assms by arith+

lemma posix_time:
  "put_time (posix_breakdown s) ''%H:%M:%S'' =
     strftime_num 2 (s mod 86400 div 3600) @ '':'' @
     strftime_num 2 (s mod 86400 mod 3600 div 60) @ '':'' @
     strftime_num 2 (s mod 86400 mod 60)"
  by (simp add: put_time_time posix_breakdown_def)

lemma posix_time_length: "length (put_time (posix_breakdown s) ''%H:%M:%S'') = 8"
proof -
  have "0 \<le> s mod 86400" "s mod 86400 < 86400" by simp_all
  from time_of_day_range [OF this] show ?thesis
    by (simp add: posix_time two_digits_length)
qed

lemma field_less:
  fixes f1 f2 :: string
  assumes "f1 < f2 \<and> length f2 \<le> length f1 \<or> f1 = f2 \<and> r1 < r2"
  shows "f1 @ r1 < f2 @ r2"
  using assms append_less_left [of f1 f2 r1 r2] append_less_right [of r1 r2 f1] by blast

lemma two_digit_field:
  assumes "0 \<le> i" "i < 100" "0 \<le> j" "j < 100" "i < j \<or> i = j \<and> r1 < r2"
  shows "strftime_num 2 i @ r1 < strftime_num 2 j @ r2"
proof (rule field_less)
  from assms(5)
  show "strftime_num 2 i < strftime_num 2 j \<and>
      length (strftime_num 2 j) \<le> length (strftime_num 2 i) \<or>
      strftime_num 2 i = strftime_num 2 j \<and> r1 < r2"
  proof
    assume "i < j"
    with assms(1) have "strftime_num 2 i < strftime_num 2 j" using assms(4) by (rule two_digits_less)
    moreover have "length (strftime_num 2 j) \<le> length (strftime_num 2 i)"
      using assms(1-4) by (simp only: two_digits_length)
    ultimately show ?thesis by blast
  next
    assume "i = j \<and> r1 < r2"
    then show ?thesis by blast
  qed
qed

lemma hms_less:
  assumes "0 \<le> h1" "h1 < 100" "0 \<le> h2" "h2 < 100"
    and "0 \<le> m1" "m1 < 100" "0 \<le> m2" "m2 < 100"
    and "0 \<le> c1" "c1 < 100" "0 \<le> c2" "c2 < 100"
    and "h1 < h2 \<or> h1 = h2 \<and> (m1 < m2 \<or> m1 = m2 \<and> c1 < c2)"
  shows "strftime_num 2 h1 @ '':'' @ strftime_num 2 m1 @ '':'' @ strftime_num 2 c1
       < strftime_num 2 h2 @ '':'' @ strftime_num 2 m2 @ '':'' @ strftime_num 2 c2"
proof -
  have c: "c1 < c2 \<Longrightarrow> '':'' @ strftime_num 2 c1 < '':'' @ strftime_num 2 c2"
    using two_digits_less [OF assms(9) _ assms(12)] by simp
  have m: "m1 < m2 \<or> m1 = m2 \<and> c1 < c2 \<Longrightarrow>
      '':'' @ strftime_num 2 m1 @ '':'' @ strftime_num 2 c1
        < '':'' @ strftime_num 2 m2 @ '':'' @ strftime_num 2 c2"
  proof -
    assume "m1 < m2 \<or> m1 = m2 \<and> c1 < c2"
    with c have "m1 < m2 \<or> m1 = m2 \<and> '':'' @ strftime_num 2 c1 < '':'' @ strftime_num 2 c2"
      by blast
    with assms(5-8) have "strftime_num 2 m1 @ '':'' @ strftime_num 2 c1
        < strftime_num 2 m2 @ '':'' @ strftime_num 2 c2"
      by (rule two_digit_field)
    then show ?thesis by (rule append_less_right)
  qed
  from assms(13) m
  have "h1 < h2 \<or> h1 = h2 \<and>
      '':'' @ strftime_num 2 m1 @ '':'' @ strftime_num 2 c1
        < '':'' @ strftime_num 2 m2 @ '':'' @ strftime_num 2 c2"
    by blast
  with assms(1-4) show ?thesis by (rule two_digit_field)
qed

lemma posix_time_less:
  assumes "s1 div 86400 = s2 div 86400" "s1 < s2"
  shows "put_time (posix_breakdown s1) ''%H:%M:%S'' < put_time (posix_breakdown s2) ''%H:%M:%S''"
proof -
  define r1 r2 where "r1 = s1 mod 86400" and "r2 = s2 mod 86400"
  have r: "0 \<le> r1" "r1 < 86400" "0 \<le> r2" "r2 < 86400"
    by (simp_all add: r1_def r2_def)
  have "s1 div 86400 < s2 div 86400 \<or>
      s1 div 86400 = s2 div 86400 \<and> s1 mod 86400 < s2 mod 86400"
    by (rule int_div_mod_lex [OF assms(2)]) simp
  with assms(1) have lt: "r1 < r2"
    by (simp add: r1_def r2_def)
  note g1 = time_of_day_range [OF r(1,2)] and g2 = time_of_day_range [OF r(3,4)]
  have "strftime_num 2 (r1 div 3600) @ '':'' @ strftime_num 2 (r1 mod 3600 div 60) @ '':'' @
      strftime_num 2 (r1 mod 60)
    < strftime_num 2 (r2 div 3600) @ '':'' @ strftime_num 2 (r2 mod 3600 div 60) @ '':'' @
      strftime_num 2 (r2 mod 60)"
    by (rule hms_less [OF g1(1,2) g2(1,2) g1(3,4) g2(3,4) g1(5,6) g2(5,6) time_of_day_lex [OF lt]])
  then show ?thesis
    by (simp only: posix_time r1_def r2_def)
qed

text \<open>Later seconds give later dates and date-times, as strings.\<close>

lemma posix_date_mono:
  assumes "- 10000000000 \<le> s1" "s1 \<le> s2" "s2 \<le> 10000000000"
  shows "put_time (posix_breakdown s1) ''%F'' \<le> put_time (posix_breakdown s2) ''%F''"
proof (cases "s1 div 86400 = s2 div 86400")
  case True
  then show ?thesis using posix_date_same_day [of s1 s2] by simp
next
  case False
  moreover have "s1 div 86400 \<le> s2 div 86400" using assms(2) by (intro zdiv_mono1) simp_all
  ultimately have "s1 div 86400 < s2 div 86400" by simp
  with assms have "put_time (posix_breakdown s1) ''%F'' < put_time (posix_breakdown s2) ''%F''"
    by (intro posix_date_less)
  then show ?thesis by simp
qed

lemma posix_date_time_less:
  assumes "- 10000000000 \<le> s1" "s1 < s2" "s2 \<le> 10000000000"
  shows "put_time (posix_breakdown s1) ''%FT%H:%M:%S''
       < put_time (posix_breakdown s2) ''%FT%H:%M:%S''"
proof (cases "s1 div 86400 = s2 div 86400")
  case True
  with assms(2)
  have "put_time (posix_breakdown s1) ''%H:%M:%S'' < put_time (posix_breakdown s2) ''%H:%M:%S''"
    by (intro posix_time_less)
  then have "''T'' @ put_time (posix_breakdown s1) ''%H:%M:%S''
      < ''T'' @ put_time (posix_breakdown s2) ''%H:%M:%S''"
    by (rule append_less_right)
  then show ?thesis
    unfolding put_time_date_time_split posix_date_same_day [OF True]
    by (rule append_less_right)
next
  case False
  moreover have "s1 div 86400 \<le> s2 div 86400" using assms(2) by (intro zdiv_mono1) simp_all
  ultimately have "s1 div 86400 < s2 div 86400" by simp
  with assms have "put_time (posix_breakdown s1) ''%F'' < put_time (posix_breakdown s2) ''%F''"
    by (intro posix_date_less)
  moreover have "length (put_time (posix_breakdown s2) ''%F'')
      \<le> length (put_time (posix_breakdown s1) ''%F'')"
    using assms by (simp add: posix_date_length)
  ultimately show ?thesis
    unfolding put_time_date_time_split by (rule append_less_left)
qed

lemma posix_date_time_length:
  assumes "- 10000000000 \<le> s" "s \<le> 10000000000"
  shows "length (put_time (posix_breakdown s) ''%FT%H:%M:%S'') = 19"
  unfolding put_time_date_time_split
  using posix_date_length [OF assms] posix_time_length [of s] by simp

section \<open>The clock reading\<close>

lemma cxx_div_mono: "0 < b \<Longrightarrow> a1 \<le> a2 \<Longrightarrow> cxx_div a1 b \<le> cxx_div a2 b"
proof -
  assume b: "0 < b" and le: "a1 \<le> a2"
  consider "0 \<le> a1" | "a1 < 0" "0 \<le> a2" | "a2 < 0" using le by linarith
  then show ?thesis
  proof cases
    case 1
    with le b show ?thesis by (simp add: cxx_div_def zdiv_mono1)
  next
    case 2
    then have "0 \<le> (- a1) div b" "0 \<le> a2 div b"
      using b by (simp_all add: pos_imp_zdiv_nonneg_iff)
    with 2 show ?thesis by (simp add: cxx_div_def)
  next
    case 3
    then have "(- a2) div b \<le> (- a1) div b" using le b by (intro zdiv_mono1) simp_all
    with 3 le show ?thesis by (simp add: cxx_div_def)
  qed
qed

lemma to_time_t_mono: "sint c1 \<le> sint c2 \<Longrightarrow> to_time_t c1 \<le> to_time_t c2"
  unfolding to_time_t_def time_since_epoch_def duration_cast_seconds_def
  by (rule cxx_div_mono) simp

lemma time_point_range:
  fixes c :: time_point
  shows "- 9223372036854775808 \<le> sint c" "sint c \<le> 9223372036854775807"
  using sint_ge [of c] sint_lt [of c] by simp_all

lemma to_time_t_range: "- 9223372036 \<le> to_time_t c" "to_time_t c \<le> 9223372036"
proof -
  have "cxx_div (- 9223372036854775808) 1000000000 \<le> cxx_div (sint c) 1000000000"
    using time_point_range(1) [of c] by (intro cxx_div_mono) simp_all
  then show "- 9223372036 \<le> to_time_t c"
    by (simp add: to_time_t_def time_since_epoch_def duration_cast_seconds_def)
      (simp add: cxx_div_def)
  have "cxx_div (sint c) 1000000000 \<le> cxx_div 9223372036854775807 1000000000"
    using time_point_range(2) [of c] by (intro cxx_div_mono) simp_all
  then show "to_time_t c \<le> 9223372036"
    by (simp add: to_time_t_def time_since_epoch_def duration_cast_seconds_def)
      (simp add: cxx_div_def)
qed

lemma millis_after_epoch:
  assumes "0 \<le> sint c"
  shows "cxx_rem (duration_cast_milliseconds (time_since_epoch c)) 1000
           = sint c div 1000000 - 1000 * to_time_t c"
    and "0 \<le> cxx_rem (duration_cast_milliseconds (time_since_epoch c)) 1000"
    and "cxx_rem (duration_cast_milliseconds (time_since_epoch c)) 1000 < 1000"
proof -
  have q: "0 \<le> sint c div 1000000" using assms by (simp add: pos_imp_zdiv_nonneg_iff)
  have "sint c div 1000000 div 1000 = sint c div 1000000000"
    by (simp add: zdiv_zmult2_eq [symmetric])
  then have t: "to_time_t c = sint c div 1000000 div 1000"
    using assms
    by (simp add: to_time_t_def time_since_epoch_def duration_cast_seconds_def cxx_div_def)
  have m: "cxx_rem (duration_cast_milliseconds (time_since_epoch c)) 1000
      = sint c div 1000000 mod 1000"
    using assms q
    by (simp add: cxx_rem_def cxx_div_def duration_cast_milliseconds_def time_since_epoch_def
        minus_mult_div_eq_mod)
  show "cxx_rem (duration_cast_milliseconds (time_since_epoch c)) 1000
           = sint c div 1000000 - 1000 * to_time_t c"
    unfolding m t by (simp add: minus_mult_div_eq_mod)
  show "0 \<le> cxx_rem (duration_cast_milliseconds (time_since_epoch c)) 1000"
    unfolding m by simp
  show "cxx_rem (duration_cast_milliseconds (time_since_epoch c)) 1000 < 1000"
    unfolding m by simp
qed

lemma millis_mono_within_second:
  assumes "0 \<le> sint c1" "sint c1 \<le> sint c2" "to_time_t c1 = to_time_t c2"
  shows "cxx_rem (duration_cast_milliseconds (time_since_epoch c1)) 1000
       \<le> cxx_rem (duration_cast_milliseconds (time_since_epoch c2)) 1000"
proof -
  have "0 \<le> sint c2" using assms by simp
  moreover have "sint c1 div 1000000 \<le> sint c2 div 1000000"
    using assms(2) by (intro zdiv_mono1) simp_all
  ultimately show ?thesis
    using assms by (simp add: millis_after_epoch(1))
qed

section \<open>The order of the results on a POSIX host\<close>

lemma date_time_suffix_le:
  assumes "- 10000000000 \<le> s1" "s1 \<le> s2" "s2 \<le> 10000000000"
  shows "put_time (posix_breakdown s1) ''%FT%H:%M:%S'' @ sfx
       \<le> put_time (posix_breakdown s2) ''%FT%H:%M:%S'' @ sfx"
proof (cases "s1 = s2")
  case True
  then show ?thesis by simp
next
  case False
  with assms have lt: "s1 < s2" by simp
  have "put_time (posix_breakdown s1) ''%FT%H:%M:%S'' < put_time (posix_breakdown s2) ''%FT%H:%M:%S''"
    using assms(1) lt assms(3) by (rule posix_date_time_less)
  moreover have "length (put_time (posix_breakdown s2) ''%FT%H:%M:%S'')
      \<le> length (put_time (posix_breakdown s1) ''%FT%H:%M:%S'')"
    using assms lt by (simp add: posix_date_time_length)
  ultimately have "put_time (posix_breakdown s1) ''%FT%H:%M:%S'' @ sfx
       < put_time (posix_breakdown s2) ''%FT%H:%M:%S'' @ sfx"
    by (rule append_less_left)
  then show ?thesis by simp
qed

lemma timestamp_suffix_le:
  assumes "- 10000000000 \<le> s1" "s2 \<le> 10000000000"
    and "s1 < s2 \<or> s1 = s2 \<and> m1 \<le> m2"
    and "0 \<le> m1" "m2 < 1000"
  shows "put_time (posix_breakdown s1) ''%FT%H:%M:%S'' @ ''.'' @ get_formatted_milliseconds m1 @ sfx
       \<le> put_time (posix_breakdown s2) ''%FT%H:%M:%S'' @ ''.'' @ get_formatted_milliseconds m2 @ sfx"
  using assms(3)
proof
  assume lt: "s1 < s2"
  have "put_time (posix_breakdown s1) ''%FT%H:%M:%S'' < put_time (posix_breakdown s2) ''%FT%H:%M:%S''"
    using assms(1) lt assms(2) by (rule posix_date_time_less)
  moreover have "length (put_time (posix_breakdown s2) ''%FT%H:%M:%S'')
      \<le> length (put_time (posix_breakdown s1) ''%FT%H:%M:%S'')"
    using assms(1,2) lt by (simp add: posix_date_time_length)
  ultimately have "put_time (posix_breakdown s1) ''%FT%H:%M:%S'' @ ''.'' @ get_formatted_milliseconds m1 @ sfx
       < put_time (posix_breakdown s2) ''%FT%H:%M:%S'' @ ''.'' @ get_formatted_milliseconds m2 @ sfx"
    by (rule append_less_left)
  then show ?thesis by simp
next
  assume eq: "s1 = s2 \<and> m1 \<le> m2"
  show ?thesis
  proof (cases "m1 = m2")
    case True
    with eq show ?thesis by simp
  next
    case False
    with eq have lt: "m1 < m2" by simp
    with assms(4) have "get_formatted_milliseconds m1 < get_formatted_milliseconds m2"
      using assms(5) by (rule three_digits_less)
    moreover have "length (get_formatted_milliseconds m2) \<le> length (get_formatted_milliseconds m1)"
      using assms(4,5) lt by (simp add: three_digits_length)
    ultimately have "get_formatted_milliseconds m1 @ sfx < get_formatted_milliseconds m2 @ sfx"
      by (rule append_less_left)
    then have "''.'' @ get_formatted_milliseconds m1 @ sfx < ''.'' @ get_formatted_milliseconds m2 @ sfx"
      by (rule append_less_right)
    then have "put_time (posix_breakdown s2) ''%FT%H:%M:%S'' @ ''.'' @ get_formatted_milliseconds m1 @ sfx
        < put_time (posix_breakdown s2) ''%FT%H:%M:%S'' @ ''.'' @ get_formatted_milliseconds m2 @ sfx"
      by (rule append_less_right)
    with eq show ?thesis by simp
  qed
qed

section \<open>The entry points on a POSIX host\<close>

lemma posix_utc_tm: "to_utc_tm (posix_platform zone c) t = posix_breakdown t"
  by (simp add: to_utc_tm_def posix_gmtime_r)

lemma posix_local_tm: "to_local_tm (posix_platform zone c) t = posix_breakdown (t + zone t)"
  by (simp add: to_local_tm_def posix_localtime_r)

lemma posix_now:
  "get_input_time_point_or_current_system_time (posix_platform zone c) None = c"
  by (simp add: get_input_time_point_or_current_system_time_def posix_system_clock_now)

lemmas posix_noarg = noarg_defs entry_eqs posix_utc_tm posix_local_tm posix_now


lemma right_utc_gmtime_r: "gmtime_r (right_utc_platform c) t buf = (True, right_utc_breakdown t)"
  by (simp add: right_utc_platform_def)


section \<open>From the epoch on\<close>

text \<open>
  For an instant that is not before the epoch the truncating cast and the C++ remainder
  agree with \<open>div\<close> and \<open>mod\<close>: the millisecond value is the remainder of the epoch
  milliseconds modulo 1000 and is written with three digits. On every host and for every
  instant the date-timestamp is the date-time, a point and the millisecond field.
\<close>

lemma millis_field_after_epoch:
  assumes "0 \<le> sint i"
  shows "cxx_rem (duration_cast_milliseconds (time_since_epoch i)) 1000
           = sint i div 1000000 mod 1000"
    and "length (get_formatted_milliseconds
           (cxx_rem (duration_cast_milliseconds (time_since_epoch i)) 1000)) = 3"
proof -
  have "0 \<le> sint i div 1000000" using assms by (simp add: pos_imp_zdiv_nonneg_iff)
  with assms show "cxx_rem (duration_cast_milliseconds (time_since_epoch i)) 1000
      = sint i div 1000000 mod 1000"
    by (simp add: cxx_rem_def cxx_div_def duration_cast_milliseconds_def time_since_epoch_def
        minus_mult_div_eq_mod)
  show "length (get_formatted_milliseconds
      (cxx_rem (duration_cast_milliseconds (time_since_epoch i)) 1000)) = 3"
    using millis_after_epoch(2,3) [OF assms] by (rule three_digits_length)
qed

lemma timestamp_extends_date_time:
  "get_current_iso_date_timestamp p tp =
     get_current_iso_date_time p tp @ ''.'' @
     get_formatted_milliseconds
       (cxx_rem (duration_cast_milliseconds
          (time_since_epoch (get_input_time_point_or_current_system_time p tp))) 1000)"
  "get_current_utc_iso_date_timestamp p tp =
     butlast (get_current_utc_iso_date_time p tp) @ ''.'' @
     get_formatted_milliseconds
       (cxx_rem (duration_cast_milliseconds
          (time_since_epoch (get_input_time_point_or_current_system_time p tp))) 1000) @ ''Z''"
  by (simp_all add: entry_eqs butlast_append)

section \<open>The claims\<close>

subsection \<open>C1: the Z suffix\<close>

text \<open>
  C1 says that the three UTC operations end with \<open>Z\<close> and the three local ones never
  contain it. The UTC date operation writes \<open>%F\<close> and nothing after it: at the epoch it
  returns \<open>1970-01-01\<close>, whose last character is not \<open>Z\<close>.
\<close>

theorem utc_date_has_no_Z:
  "get_current_utc_iso_date (posix_platform utc_zone 0) (Some 0) = ''1970-01-01'' \<and>
   last (get_current_utc_iso_date (posix_platform utc_zone 0) (Some 0)) \<noteq> CHR ''Z''"
  by (simp add: eval_simps)

text \<open>
  C1 as amended: on every host and for every instant, given or read from the clock, the UTC
  date-time and the UTC date-timestamp end with \<open>Z\<close>; the UTC date and the three local
  results contain no \<open>Z\<close>.
\<close>

theorem Z_suffix_of_utc_times_only:
  "last (get_current_utc_iso_date_time p tp) = CHR ''Z'' \<and>
   last (get_current_utc_iso_date_timestamp p tp) = CHR ''Z'' \<and>
   CHR ''Z'' \<notin> set (get_current_utc_iso_date p tp) \<and>
   CHR ''Z'' \<notin> set (get_current_iso_date p tp) \<and>
   CHR ''Z'' \<notin> set (get_current_iso_date_time p tp) \<and>
   CHR ''Z'' \<notin> set (get_current_iso_date_timestamp p tp)"
  unfolding entry_eqs
  using put_time_date_no_Z put_time_date_time_no_Z get_formatted_milliseconds_no_Z
  by simp

subsection \<open>C2: the millisecond value\<close>

text \<open>
  C2 says that the millisecond value in both timestamps is the non-negative remainder of
  the epoch milliseconds modulo 1000, also before the epoch. One millisecond before the
  epoch that remainder is 999; the source computes \<open>-1\<close> (truncating cast, remainder with
  the sign of the dividend) and both timestamps read \<open>.0-1\<close> in the first second of 1970.
\<close>

theorem millis_one_before_epoch:
  "cxx_rem (duration_cast_milliseconds (time_since_epoch (- 1000000))) 1000 = - 1 \<and>
   get_current_utc_iso_date_timestamp (posix_platform utc_zone clock) (Some (- 1000000))
     = ''1970-01-01T00:00:00.0-1Z'' \<and>
   get_current_iso_date_timestamp (posix_platform utc_zone clock) (Some (- 1000000))
     = ''1970-01-01T00:00:00.0-1''"
  by (simp add: eval_simps)

subsection \<open>C4: the instant 2024-01-05T03:04:05.006 UTC\<close>

text \<open>
  C4: with UTC as the local zone, the instant 2024-01-05T03:04:05.006 UTC (1704423845006
  milliseconds after the epoch) is rendered as \<open>2024-01-05T03:04:05\<close> by the local
  date-time, \<open>2024-01-05T03:04:05.006\<close> by the local date-timestamp,
  \<open>2024-01-05T03:04:05Z\<close> by the UTC date-time and \<open>2024-01-05T03:04:05.006Z\<close> by the
  UTC date-timestamp, whatever the clock reads.
\<close>

theorem example_2024_01_05:
  "get_current_iso_date_time (posix_platform utc_zone clock) (Some 1704423845006000000)
     = ''2024-01-05T03:04:05'' \<and>
   get_current_iso_date_timestamp (posix_platform utc_zone clock) (Some 1704423845006000000)
     = ''2024-01-05T03:04:05.006'' \<and>
   get_current_utc_iso_date_time (posix_platform utc_zone clock) (Some 1704423845006000000)
     = ''2024-01-05T03:04:05Z'' \<and>
   get_current_utc_iso_date_timestamp (posix_platform utc_zone clock) (Some 1704423845006000000)
     = ''2024-01-05T03:04:05.006Z''"
  by (simp add: eval_simps)

subsection \<open>C5: field widths\<close>

text \<open>
  C5 says that every emitted string has a four-digit year, two-digit month, day, hour,
  minute and second and a three-digit millisecond field. A quarter of a second before the
  epoch the millisecond field of both timestamps is \<open>-250\<close>: four characters, the first
  of them a sign.
\<close>

theorem width_quarter_second_before_epoch:
  "get_current_iso_date_timestamp (posix_platform utc_zone clock) (Some (- 250000000))
     = ''1970-01-01T00:00:00.-250'' \<and>
   get_current_utc_iso_date_timestamp (posix_platform utc_zone clock) (Some (- 250000000))
     = ''1970-01-01T00:00:00.-250Z''"
  by (simp add: eval_simps)

subsection \<open>C6: zero padding of the millisecond field\<close>

text \<open>
  C6 says that the millisecond field is always three decimal digits with leading zeros.
  Seven milliseconds before the epoch the formatter is handed \<open>-7\<close> and pads the signed
  text on the left: the field reads \<open>0-7\<close>.
\<close>

theorem padding_seven_millis_before_epoch:
  "get_formatted_milliseconds (- 7) = ''0-7'' \<and>
   get_current_iso_date_timestamp (posix_platform utc_zone clock) (Some (- 7000000))
     = ''1970-01-01T00:00:00.0-7'' \<and>
   get_current_utc_iso_date_timestamp (posix_platform utc_zone clock) (Some (- 7000000))
     = ''1970-01-01T00:00:00.0-7Z''"
  by (simp add: eval_simps)

subsection \<open>C7: the date-time as a prefix of the date-timestamp\<close>

text \<open>
  C7 says that the local date-time is the local date-timestamp without its last four
  characters (the point and three millisecond digits). At 123 milliseconds before the
  epoch the millisecond field is \<open>-123\<close>, and cutting four characters off the timestamp
  leaves the date-time followed by a point.
\<close>

theorem prefix_before_epoch:
  "get_current_iso_date_time (posix_platform utc_zone clock) (Some (- 123000000))
     = ''1970-01-01T00:00:00'' \<and>
   get_current_iso_date_timestamp (posix_platform utc_zone clock) (Some (- 123000000))
     = ''1970-01-01T00:00:00.-123'' \<and>
   take (length (get_current_iso_date_timestamp (posix_platform utc_zone clock)
                   (Some (- 123000000))) - 4)
     (get_current_iso_date_timestamp (posix_platform utc_zone clock) (Some (- 123000000)))
     = ''1970-01-01T00:00:00.''"
  by (simp add: eval_simps)

subsection \<open>C8: successive readings of the clock\<close>

text \<open>
  C8 says that two successive calls of the same current-time entry point return
  non-decreasing strings when the clock did not go back between them. When summer time
  ends the local time does: one second before 01:00:00 UTC on 27 October 2024 the local
  date-time reads 02:59:59, at 01:00:00 UTC it reads 02:00:00.
\<close>

theorem local_time_steps_back:
  "sint (1729990799000000000 :: time_point) \<le> sint (1729990800000000000 :: time_point) \<and>
   get_current_iso_date_time_noarg (posix_platform summer_time_ends 1729990799000000000)
     = ''2024-10-27T02:59:59'' \<and>
   get_current_iso_date_time_noarg (posix_platform summer_time_ends 1729990800000000000)
     = ''2024-10-27T02:00:00'' \<and>
   get_current_iso_date_time_noarg (posix_platform summer_time_ends 1729990800000000000)
     < get_current_iso_date_time_noarg (posix_platform summer_time_ends 1729990799000000000)"
  by (simp add: eval_simps summer_time_ends_def)

text \<open>
  C8 as amended: on a POSIX host, when the second clock reading is not earlier than the
  first, the UTC date and the UTC date-time of the second call are not smaller, as
  strings, than those of the first; so is the UTC date-timestamp when the first reading is
  not before the epoch. The same holds for the three local results provided the offset of
  the local zone from UTC at the second reading is not smaller than at the first (and
  both are within a day).
\<close>

theorem successive_reads_nondecreasing:
  assumes "sint c1 \<le> sint c2"
  shows
    "get_current_utc_iso_date_noarg (posix_platform zone c1)
       \<le> get_current_utc_iso_date_noarg (posix_platform zone c2) \<and>
     get_current_utc_iso_date_time_noarg (posix_platform zone c1)
       \<le> get_current_utc_iso_date_time_noarg (posix_platform zone c2) \<and>
     (0 \<le> sint c1 \<longrightarrow>
       get_current_utc_iso_date_timestamp_noarg (posix_platform zone c1)
         \<le> get_current_utc_iso_date_timestamp_noarg (posix_platform zone c2)) \<and>
     (zone (to_time_t c1) \<le> zone (to_time_t c2) \<and>
      \<bar>zone (to_time_t c1)\<bar> \<le> 86400 \<and> \<bar>zone (to_time_t c2)\<bar> \<le> 86400 \<longrightarrow>
       get_current_iso_date_noarg (posix_platform zone c1)
         \<le> get_current_iso_date_noarg (posix_platform zone c2) \<and>
       get_current_iso_date_time_noarg (posix_platform zone c1)
         \<le> get_current_iso_date_time_noarg (posix_platform zone c2) \<and>
       (0 \<le> sint c1 \<longrightarrow>
         get_current_iso_date_timestamp_noarg (posix_platform zone c1)
           \<le> get_current_iso_date_timestamp_noarg (posix_platform zone c2)))"
proof -
  define t1 t2 where "t1 = to_time_t c1" and "t2 = to_time_t c2"
  define m1 m2 where "m1 = cxx_rem (duration_cast_milliseconds (time_since_epoch c1)) 1000"
    and "m2 = cxx_rem (duration_cast_milliseconds (time_since_epoch c2)) 1000"
  have t: "t1 \<le> t2"
    unfolding t1_def t2_def using assms by (rule to_time_t_mono)
  have r: "- 9223372036 \<le> t1" "t1 \<le> 9223372036" "- 9223372036 \<le> t2" "t2 \<le> 9223372036"
    unfolding t1_def t2_def by (rule to_time_t_range)+
  have ms: "t1 < t2 \<or> t1 = t2 \<and> m1 \<le> m2" "0 \<le> m1" "m2 < 1000" if "0 \<le> sint c1"
  proof -
    from that assms have c2: "0 \<le> sint c2" by simp
    show "0 \<le> m1" unfolding m1_def using that by (rule millis_after_epoch(2))
    show "m2 < 1000" unfolding m2_def using c2 by (rule millis_after_epoch(3))
    show "t1 < t2 \<or> t1 = t2 \<and> m1 \<le> m2"
    proof (cases "t1 = t2")
      case True
      then have "m1 \<le> m2"
        unfolding m1_def m2_def t1_def t2_def
        using that assms by (intro millis_mono_within_second)
      with True show ?thesis by simp
    next
      case False
      with t show ?thesis by simp
    qed
  qed
  have utc_date: "put_time (posix_breakdown t1) ''%F'' \<le> put_time (posix_breakdown t2) ''%F''"
    using r t by (intro posix_date_mono) simp_all
  have utc_date_time: "put_time (posix_breakdown t1) ''%FT%H:%M:%S'' @ ''Z''
      \<le> put_time (posix_breakdown t2) ''%FT%H:%M:%S'' @ ''Z''"
    using r t by (intro date_time_suffix_le) simp_all
  have utc_stamp: "put_time (posix_breakdown t1) ''%FT%H:%M:%S'' @ ''.'' @
        get_formatted_milliseconds m1 @ ''Z''
      \<le> put_time (posix_breakdown t2) ''%FT%H:%M:%S'' @ ''.'' @
        get_formatted_milliseconds m2 @ ''Z''"
    if "0 \<le> sint c1"
    using r ms [OF that] by (intro timestamp_suffix_le) simp_all
  have loc: "put_time (posix_breakdown (t1 + zone t1)) ''%F''
        \<le> put_time (posix_breakdown (t2 + zone t2)) ''%F''"
      "put_time (posix_breakdown (t1 + zone t1)) ''%FT%H:%M:%S''
        \<le> put_time (posix_breakdown (t2 + zone t2)) ''%FT%H:%M:%S''"
      "0 \<le> sint c1 \<Longrightarrow>
        put_time (posix_breakdown (t1 + zone t1)) ''%FT%H:%M:%S'' @ ''.'' @
          get_formatted_milliseconds m1
        \<le> put_time (posix_breakdown (t2 + zone t2)) ''%FT%H:%M:%S'' @ ''.'' @
          get_formatted_milliseconds m2"
    if z: "zone t1 \<le> zone t2" "\<bar>zone t1\<bar> \<le> 86400" "\<bar>zone t2\<bar> \<le> 86400"
  proof -
    have lr: "- 10000000000 \<le> t1 + zone t1" "t2 + zone t2 \<le> 10000000000"
      using r z by simp_all
    have le: "t1 + zone t1 \<le> t2 + zone t2" using t z by simp
    show "put_time (posix_breakdown (t1 + zone t1)) ''%F''
        \<le> put_time (posix_breakdown (t2 + zone t2)) ''%F''"
      using lr(1) le lr(2) by (rule posix_date_mono)
    show "put_time (posix_breakdown (t1 + zone t1)) ''%FT%H:%M:%S''
        \<le> put_time (posix_breakdown (t2 + zone t2)) ''%FT%H:%M:%S''"
      using date_time_suffix_le [OF lr(1) le lr(2), of "[]"] by simp
    assume c1: "0 \<le> sint c1"
    have "t1 + zone t1 < t2 + zone t2 \<or> t1 + zone t1 = t2 + zone t2 \<and> m1 \<le> m2"
      using ms(1) [OF c1] z(1) by auto
    from timestamp_suffix_le [OF lr this ms(2,3) [OF c1], of "[]"]
    show "put_time (posix_breakdown (t1 + zone t1)) ''%FT%H:%M:%S'' @ ''.'' @
          get_formatted_milliseconds m1
        \<le> put_time (posix_breakdown (t2 + zone t2)) ''%FT%H:%M:%S'' @ ''.'' @
          get_formatted_milliseconds m2"
      by simp
  qed
  show ?thesis
    unfolding posix_noarg
    using utc_date utc_date_time utc_stamp loc
    unfolding t1_def t2_def m1_def m2_def
    by blast
qed

theorem successive_reads_nondecreasing_witness:
  "sint (1729990798000000000 :: time_point) \<le> sint (1729990799500000000 :: time_point) \<and>
   0 \<le> sint (1729990798000000000 :: time_point) \<and>
   summer_time_ends (to_time_t 1729990798000000000)
     \<le> summer_time_ends (to_time_t 1729990799500000000) \<and>
   \<bar>summer_time_ends (to_time_t 1729990798000000000)\<bar> \<le> 86400 \<and>
   \<bar>summer_time_ends (to_time_t 1729990799500000000)\<bar> \<le> 86400 \<and>
   get_current_utc_iso_date_noarg (posix_platform summer_time_ends 1729990798000000000)
     \<le> get_current_utc_iso_date_noarg (posix_platform summer_time_ends 1729990799500000000) \<and>
   get_current_utc_iso_date_time_noarg (posix_platform summer_time_ends 1729990798000000000)
     \<le> get_current_utc_iso_date_time_noarg
          (posix_platform summer_time_ends 1729990799500000000) \<and>
   get_current_utc_iso_date_timestamp_noarg (posix_platform summer_time_ends 1729990798000000000)
     \<le> get_current_utc_iso_date_timestamp_noarg
          (posix_platform summer_time_ends 1729990799500000000) \<and>
   get_current_iso_date_noarg (posix_platform summer_time_ends 1729990798000000000)
     \<le> get_current_iso_date_noarg (posix_platform summer_time_ends 1729990799500000000) \<and>
   get_current_iso_date_time_noarg (posix_platform summer_time_ends 1729990798000000000)
     \<le> get_current_iso_date_time_noarg (posix_platform summer_time_ends 1729990799500000000) \<and>
   get_current_iso_date_timestamp_noarg (posix_platform summer_time_ends 1729990798000000000)
     \<le> get_current_iso_date_timestamp_noarg
          (posix_platform summer_time_ends 1729990799500000000)"
proof -
  have h1: "sint (1729990798000000000 :: time_point) \<le> sint (1729990799500000000 :: time_point)"
    by simp
  have h2: "0 \<le> sint (1729990798000000000 :: time_point)"
    by simp
  have t: "to_time_t 1729990798000000000 = 1729990798"
      "to_time_t 1729990799500000000 = 1729990799"
    by (simp_all add: chrono_defs)
  have h3: "summer_time_ends (to_time_t 1729990798000000000)
      \<le> summer_time_ends (to_time_t 1729990799500000000)"
    unfolding t by (simp add: summer_time_ends_def)
  have h4: "\<bar>summer_time_ends (to_time_t 1729990798000000000)\<bar> \<le> 86400"
    unfolding t by (simp add: summer_time_ends_def)
  have h5: "\<bar>summer_time_ends (to_time_t 1729990799500000000)\<bar> \<le> 86400"
    unfolding t by (simp add: summer_time_ends_def)
  from successive_reads_nondecreasing [OF h1, of summer_time_ends] h1 h2 h3 h4 h5
  show ?thesis by blast
qed

subsection \<open>C9: the overloads without an argument\<close>

text \<open>
  C9: each of the six operations called without an argument returns what the form with an
  optional instant returns for an empty optional on the same host, that is at the same
  clock reading.
\<close>

theorem noarg_is_nullopt:
  "get_current_iso_date_noarg p = get_current_iso_date p None \<and>
   get_current_iso_date_time_noarg p = get_current_iso_date_time p None \<and>
   get_current_iso_date_timestamp_noarg p = get_current_iso_date_timestamp p None \<and>
   get_current_utc_iso_date_noarg p = get_current_utc_iso_date p None \<and>
   get_current_utc_iso_date_time_noarg p = get_current_utc_iso_date_time p None \<and>
   get_current_utc_iso_date_timestamp_noarg p = get_current_utc_iso_date_timestamp p None"
  by (simp only: noarg_defs)

subsection \<open>C10: the UTC results and the time zone setting\<close>

text \<open>
  C10 says that for an explicit instant the three UTC results depend on the instant only,
  whatever the time zone setting of the host. Under a zone that counts leap seconds
  \<open>gmtime_r\<close> is 27 seconds behind from 2017 on: for the instant 1704423845 seconds after
  the epoch the UTC date-time reads 03:04:05 on a host set to UTC and 03:03:38 on a host set
  to \<open>right/UTC\<close>, and ten seconds after midnight the two hosts disagree on the date.
\<close>

theorem utc_results_under_leap_second_zone:
  "get_current_utc_iso_date_time (posix_platform utc_zone 0) (Some 1704423845006000000)
     = ''2024-01-05T03:04:05Z'' \<and>
   get_current_utc_iso_date_time (right_utc_platform 0) (Some 1704423845006000000)
     = ''2024-01-05T03:03:38Z'' \<and>
   get_current_utc_iso_date_timestamp (posix_platform utc_zone 0) (Some 1704423845006000000)
     = ''2024-01-05T03:04:05.006Z'' \<and>
   get_current_utc_iso_date_timestamp (right_utc_platform 0) (Some 1704423845006000000)
     = ''2024-01-05T03:03:38.006Z'' \<and>
   get_current_utc_iso_date (posix_platform utc_zone 0) (Some 1704412810000000000)
     = ''2024-01-05'' \<and>
   get_current_utc_iso_date (right_utc_platform 0) (Some 1704412810000000000)
     = ''2024-01-04''"
  by (simp add: eval_simps right_utc_gmtime_r right_utc_breakdown_def leap_seconds_before_def
      leap_second_times_def)

text \<open>
  C10 as amended: for an explicit instant the three UTC results depend only on the instant
  and on the breakdown that \<open>gmtime_r\<close> of the host gives for its second: two hosts whose
  \<open>gmtime_r\<close> leave the same breakdown there return the same three strings, whatever their
  \<open>localtime_r\<close> and their clocks. In particular two POSIX hosts with different local
  zones return the same strings.
\<close>

theorem utc_depends_on_gmtime_only:
  "(snd (gmtime_r p (to_time_t i) tm_zero) = snd (gmtime_r q (to_time_t i) tm_zero) \<longrightarrow>
      get_current_utc_iso_date p (Some i) = get_current_utc_iso_date q (Some i) \<and>
      get_current_utc_iso_date_time p (Some i) = get_current_utc_iso_date_time q (Some i) \<and>
      get_current_utc_iso_date_timestamp p (Some i)
        = get_current_utc_iso_date_timestamp q (Some i)) \<and>
   get_current_utc_iso_date (posix_platform zone1 clock1) (Some i)
     = get_current_utc_iso_date (posix_platform zone2 clock2) (Some i) \<and>
   get_current_utc_iso_date_time (posix_platform zone1 clock1) (Some i)
     = get_current_utc_iso_date_time (posix_platform zone2 clock2) (Some i) \<and>
   get_current_utc_iso_date_timestamp (posix_platform zone1 clock1) (Some i)
     = get_current_utc_iso_date_timestamp (posix_platform zone2 clock2) (Some i)"
  by (simp add: entry_eqs get_input_time_point_or_current_system_time_def to_utc_tm_def
      posix_gmtime_r)

theorem utc_depends_on_gmtime_only_witness:
  "snd (gmtime_r (posix_platform utc_zone 0) (to_time_t 1704423845006000000) tm_zero)
     = snd (gmtime_r (posix_platform summer_time_ends 1729990800000000000)
          (to_time_t 1704423845006000000) tm_zero) \<and>
   get_current_utc_iso_date (posix_platform utc_zone 0) (Some 1704423845006000000)
     = get_current_utc_iso_date (posix_platform summer_time_ends 1729990800000000000)
         (Some 1704423845006000000) \<and>
   get_current_utc_iso_date_time (posix_platform utc_zone 0) (Some 1704423845006000000)
     = get_current_utc_iso_date_time (posix_platform summer_time_ends 1729990800000000000)
         (Some 1704423845006000000) \<and>
   get_current_utc_iso_date_timestamp (posix_platform utc_zone 0) (Some 1704423845006000000)
     = get_current_utc_iso_date_timestamp (posix_platform summer_time_ends 1729990800000000000)
         (Some 1704423845006000000)"
proof -
  have h: "snd (gmtime_r (posix_platform utc_zone 0) (to_time_t 1704423845006000000) tm_zero)
     = snd (gmtime_r (posix_platform summer_time_ends 1729990800000000000)
          (to_time_t 1704423845006000000) tm_zero)"
    by (simp only: posix_gmtime_r)
  from h utc_depends_on_gmtime_only [of "posix_platform utc_zone 0" 1704423845006000000
      "posix_platform summer_time_ends 1729990800000000000"]
  show ?thesis by blast
qed

end
